theory Spec2Isabelle
  imports Main "HOL-Library.AList" "HOL-Library.Multiset" "HOL-Library.Word"
begin

section \<open>The iterative verifier of ghostferry (iterative_verifier.go)\<close>

text \<open>
  A shallow embedding of \<^verbatim>\<open>iterative_verifier.go\<close>. Primary keys are Go's
  \<^verbatim>\<open>uint64\<close>, fingerprints are byte slices, Go maps are association lists with
  distinct keys whose list order stands for the order in which \<^verbatim>\<open>range\<close> visits the
  entries (Go leaves that order open, so statements about a map quantify over every
  association list that holds it).
\<close>

subsection \<open>Go values\<close>

type_synonym uint64 = "64 word"
type_synonym bytes = "8 word list"

text \<open>A Go map: \<^verbatim>\<open>m[k]\<close> with the comma-ok form, \<^verbatim>\<open>m[k] = v\<close> and
  \<^verbatim>\<open>delete(m, k)\<close> are \<open>map_of\<close>, \<open>AList.update\<close> and \<open>AList.delete\<close>.\<close>

type_synonym ('k, 'v) gomap = "('k \<times> 'v) list"

definition gomap_wf :: "('k, 'v) gomap \<Rightarrow> bool" where
  "gomap_wf m = distinct (map fst m)"

text \<open>\<^verbatim>\<open>h, exists := m[pk]\<close> on a map of byte slices: a missing key reads as the nil slice.\<close>

definition index_bytes :: "(uint64, bytes) gomap \<Rightarrow> uint64 \<Rightarrow> bytes \<times> bool" where
  "index_bytes m pk = (case map_of m pk of None \<Rightarrow> ([], False) | Some h \<Rightarrow> (h, True))"

text \<open>\<^verbatim>\<open>bytes.Equal\<close>: same length and same bytes; nil and the empty slice are equal.\<close>

definition bytes_Equal :: "bytes \<Rightarrow> bytes \<Rightarrow> bool" where
  "bytes_Equal a b = (a = b)"

subsection \<open>compareHashes\<close>

text \<open>The first loop of \<^verbatim>\<open>compareHashes\<close>: \<^verbatim>\<open>for pk, targetHash := range target\<close>.\<close>

fun range_target :: "(uint64, bytes) gomap \<Rightarrow> (uint64, bytes) gomap \<Rightarrow>
    (uint64, unit) gomap \<Rightarrow> (uint64, unit) gomap" where
  "range_target source [] mismatchSet = mismatchSet"
| "range_target source ((pk, targetHash) # rest) mismatchSet =
     (let (sourceHash, exists) = index_bytes source pk in
      range_target source rest
        (if \<not> bytes_Equal sourceHash targetHash \<or> \<not> exists
         then AList.update pk () mismatchSet else mismatchSet))"

text \<open>The second loop: \<^verbatim>\<open>for pk, sourceHash := range source\<close>.\<close>

fun range_source :: "(uint64, bytes) gomap \<Rightarrow> (uint64, bytes) gomap \<Rightarrow>
    (uint64, unit) gomap \<Rightarrow> (uint64, unit) gomap" where
  "range_source target [] mismatchSet = mismatchSet"
| "range_source target ((pk, sourceHash) # rest) mismatchSet =
     (let (targetHash, exists) = index_bytes target pk in
      range_source target rest
        (if \<not> bytes_Equal sourceHash targetHash \<or> \<not> exists
         then AList.update pk () mismatchSet else mismatchSet))"

text \<open>The last loop copies the keys of \<^verbatim>\<open>mismatchSet\<close> into the returned slice, in the
  order of its \<^verbatim>\<open>range\<close>; the statements below are about the set of the slice's elements,
  which is the same in every order.\<close>

definition compareHashes :: "(uint64, bytes) gomap \<Rightarrow> (uint64, bytes) gomap \<Rightarrow> uint64 list" where
  "compareHashes source target =
     (let mismatchSet = range_target source target [];
          mismatchSet = range_source target source mismatchSet
      in map fst mismatchSet)"

text \<open>What the comparator is meant to return, in the words of the specification:
  a key of one side that the other side lacks, or a key of both with unequal bytes.\<close>

definition mismatched :: "(uint64, bytes) gomap \<Rightarrow> (uint64, bytes) gomap \<Rightarrow> uint64 set" where
  "mismatched src tgt =
     {pk. (pk \<in> dom (map_of src) \<and> pk \<notin> dom (map_of tgt))
        \<or> (pk \<in> dom (map_of tgt) \<and> pk \<notin> dom (map_of src))
        \<or> (\<exists>a b. map_of src pk = Some a \<and> map_of tgt pk = Some b \<and> a \<noteq> b)}"

subsection \<open>Tables, entries and batches\<close>

text \<open>\<^verbatim>\<open>schema.Table\<close> and \<^verbatim>\<open>schema.TableColumn\<close> of the go-mysql library, with the
  fields this file reads. The code holds tables by pointer; the model holds the table the
  pointer refers to.\<close>

record TableColumn =
  Name_col :: string
  Type_col :: int

record schema_Table =
  Schema :: string
  Name :: string
  Columns :: "TableColumn list"

record TableIdentifier =
  SchemaName :: string
  TableName :: string

definition NewTableIdentifierFromSchemaTable :: "schema_Table \<Rightarrow> TableIdentifier" where
  "NewTableIdentifierFromSchemaTable table = \<lparr>SchemaName = Schema table, TableName = Name table\<rparr>"

record ReverifyBatch =
  Pks :: "uint64 list"
  Table :: TableIdentifier

record ReverifyEntry =
  Pk :: uint64
  Table_entry :: schema_Table

subsection \<open>The heap of map objects\<close>

text \<open>
  A Go map is a reference: copying a struct that has a map field copies the reference, and
  a \<^verbatim>\<open>delete\<close> through either copy is seen through both. \<^verbatim>\<open>MapStore\<close> is therefore an
  address into a heap of map objects (\<open>None\<close> is the nil map). The inner maps of pks are
  reachable through the outer map only, so the outer map holds them by value.
\<close>

type_synonym addr = nat
type_synonym pkSet = "(uint64, unit) gomap"
type_synonym tableMap = "(TableIdentifier, pkSet) gomap"

record heap =
  maps :: "addr \<Rightarrow> tableMap"
  next_addr :: addr

text \<open>\<^verbatim>\<open>make(map[TableIdentifier]map[uint64]struct{})\<close>\<close>

definition make_map :: "heap \<Rightarrow> addr \<times> heap" where
  "make_map h = (next_addr h, h\<lparr>maps := (maps h)(next_addr h := []), next_addr := Suc (next_addr h)\<rparr>)"

definition heap_store :: "heap \<Rightarrow> addr \<Rightarrow> tableMap \<Rightarrow> heap" where
  "heap_store h a m = h\<lparr>maps := (maps h)(a := m)\<rparr>"

text \<open>The run-time panics of the Go statements modelled here.\<close>

datatype panic =
    AssignmentToEntryInNilMap
  | IntegerDivideByZero
  | MakesliceCapOutOfRange
  | NilPointerDereference
  | CloseOfNilChannel
  | CloseOfClosedChannel
  | SendOnClosedChannel
  | IndexOutOfRange
  | MakesliceLenOutOfRange

subsection \<open>ReverifyStore\<close>

record ReverifyStore =
  MapStore :: "addr option"
  SortedStore :: "ReverifyBatch list"
  RowCount :: uint64
  EmitLogPerRowCount :: uint64

definition NewReverifyStore :: "heap \<Rightarrow> heap \<times> ReverifyStore" where
  "NewReverifyStore h =
     (let (a, h) = make_map h
      in (h, \<lparr>MapStore = Some a, SortedStore = [], RowCount = 0, EmitLogPerRowCount = 10000\<rparr>))"

text \<open>
  \<^verbatim>\<open>func (r *ReverifyStore) Add(entry ReverifyEntry)\<close>: a pointer receiver, so the call
  changes the caller's struct and the map object. Reading a nil map finds nothing and the
  assignment that follows panics; \<^verbatim>\<open>RowCount++\<close> wraps at 64 bits; the remainder panics
  when \<^verbatim>\<open>EmitLogPerRowCount\<close> is zero. The debug log line changes no state and is left out.
\<close>

definition Add :: "heap \<times> ReverifyStore \<Rightarrow> ReverifyEntry \<Rightarrow> panic + heap \<times> ReverifyStore" where
  "Add s entry =
     (let (h, r) = s;
          tableId = NewTableIdentifierFromSchemaTable (Table_entry entry)
      in case MapStore r of
           None \<Rightarrow> Inl AssignmentToEntryInNilMap
         | Some a \<Rightarrow>
            (let m = maps h a;
                 m = (case map_of m tableId of None \<Rightarrow> AList.update tableId [] m | Some _ \<Rightarrow> m);
                 pkSet = (case map_of m tableId of None \<Rightarrow> [] | Some pkSet \<Rightarrow> pkSet)
             in case map_of pkSet (Pk entry) of
                  Some _ \<Rightarrow> Inr (heap_store h a m, r)
                | None \<Rightarrow>
                   (let m = AList.update tableId (AList.update (Pk entry) () pkSet) m;
                        r = r\<lparr>RowCount := RowCount r + 1\<rparr>
                    in if EmitLogPerRowCount r = 0 then Inl IntegerDivideByZero
                       else Inr (heap_store h a m, r))))"

text \<open>A sequence of \<^verbatim>\<open>Add\<close> calls on one store; a panic ends it.\<close>

fun Adds :: "heap \<times> ReverifyStore \<Rightarrow> ReverifyEntry list \<Rightarrow> panic + heap \<times> ReverifyStore" where
  "Adds s [] = Inr s"
| "Adds s (entry # entries) = (case Add s entry of Inl p \<Rightarrow> Inl p | Inr s' \<Rightarrow> Adds s' entries)"

text \<open>The inner loop of \<^verbatim>\<open>FreezeAndBatchByTable\<close>, \<^verbatim>\<open>for pk, _ := range pkSet\<close>, on the
  loop state \<^verbatim>\<open>(pkBatch, r.SortedStore)\<close>.\<close>

fun range_pkSet :: "int \<Rightarrow> TableIdentifier \<Rightarrow> pkSet \<Rightarrow> uint64 list \<times> ReverifyBatch list \<Rightarrow>
    uint64 list \<times> ReverifyBatch list" where
  "range_pkSet batchsize tableId [] st = st"
| "range_pkSet batchsize tableId ((pk, _) # rest) (pkBatch, sortedStore) =
     (let pkBatch = pkBatch @ [pk]
      in if int (length pkBatch) \<ge> batchsize
         then range_pkSet batchsize tableId rest ([], sortedStore @ [\<lparr>Pks = pkBatch, Table = tableId\<rparr>])
         else range_pkSet batchsize tableId rest (pkBatch, sortedStore))"

text \<open>
  The outer loop, \<^verbatim>\<open>for tableId, pkSet := range r.MapStore\<close>, on the loop state
  \<^verbatim>\<open>(r.SortedStore, heap)\<close>. Each round deletes its own key from the map object at \<open>a\<close>,
  which leaves the entries still to be visited as they are. \<^verbatim>\<open>make([]uint64, 0, batchsize)\<close>
  panics on a negative capacity (the allocator's upper limit on a capacity belongs to the
  platform and is not modelled).
\<close>

fun range_MapStore :: "int \<Rightarrow> addr \<Rightarrow> tableMap \<Rightarrow> ReverifyBatch list \<times> heap \<Rightarrow>
    panic + ReverifyBatch list \<times> heap" where
  "range_MapStore batchsize a [] st = Inr st"
| "range_MapStore batchsize a ((tableId, pkSet) # rest) (sortedStore, h) =
     (if batchsize < 0 then Inl MakesliceCapOutOfRange
      else
        (let (pkBatch, sortedStore) = range_pkSet batchsize tableId pkSet ([], sortedStore);
             sortedStore = (if length pkBatch > 0
                       then sortedStore @ [\<lparr>Pks = pkBatch, Table = tableId\<rparr>] else sortedStore);
             h = heap_store h a (AList.delete tableId (maps h a))
         in range_MapStore batchsize a rest (sortedStore, h)))"

text \<open>
  \<^verbatim>\<open>func (r ReverifyStore) FreezeAndBatchByTable(batchsize int) []ReverifyBatch\<close>: a value
  receiver, so \<open>r\<close> is the callee's own copy of the struct. The assignments to
  \<^verbatim>\<open>r.SortedStore\<close> and \<^verbatim>\<open>r.MapStore\<close> change that copy and end with the call; what
  reaches the caller is the returned slice and the map object, emptied by the deletes.
\<close>

definition FreezeAndBatchByTable :: "heap \<Rightarrow> ReverifyStore \<Rightarrow> int \<Rightarrow> panic + ReverifyBatch list \<times> heap" where
  "FreezeAndBatchByTable h r batchsize =
     (case MapStore r of
        None \<Rightarrow> Inr (SortedStore r, h)
      | Some a \<Rightarrow>
         (let r = r\<lparr>SortedStore := []\<rparr>
          in case range_MapStore batchsize a (maps h a) (SortedStore r, h) of
               Inl p \<Rightarrow> Inl p
             | Inr (sortedStore, h) \<Rightarrow>
                (let r = r\<lparr>SortedStore := sortedStore\<rparr>;
                     r = r\<lparr>MapStore := None\<rparr>
                 in Inr (SortedStore r, h))))"







subsection \<open>The verifier: state, channel and outcomes\<close>

text \<open>An \<^verbatim>\<open>error\<close> value made by \<^verbatim>\<open>errors.New\<close> or \<^verbatim>\<open>fmt.Errorf\<close>, or handed over by a
  collaborator: its message.\<close>

datatype error = Error string

text \<open>How a call ends: it returns, it panics, or its goroutine blocks for ever.\<close>

datatype 'a outcome = Returns 'a | Panics panic | Blocks

text \<open>
  The ingestion channel \<^verbatim>\<open>reverifyChan\<close> is unbuffered and has one receiver, the goroutine
  running \<^verbatim>\<open>consumeReverifyChan\<close>, which passes each entry to \<^verbatim>\<open>reverifyStore.Add\<close>. The
  model keeps the entries handed over so far in \<open>sent\<close>, in the order of the sends; the
  receiver's \<^verbatim>\<open>Add\<close> calls are replayed from \<open>sent\<close> where the controller waits for
  the receiver to end. \<open>None\<close> is the nil channel.
\<close>

record chan =
  closed :: bool
  sent :: "ReverifyEntry list"

record CursorConfig_struct =
  BatchSize :: uint64

record VerificationResult =
  DataCorrect :: bool
  Message :: string

record verificationResultAndError =
  Result :: VerificationResult
  Error_of :: "error option"

definition ErroredOrFailed :: "verificationResultAndError \<Rightarrow> bool" where
  "ErroredOrFailed r = (Error_of r \<noteq> None \<or> \<not> DataCorrect (Result r))"

text \<open>
  The fields of \<^verbatim>\<open>IterativeVerifier\<close> that the modelled methods read or write. A pointer
  to a collaborator is \<open>None\<close> when nil; \<open>wg\<close> holds the counter of the wait group of the
  receiver goroutine (1 while it runs), \<open>None\<close> before \<^verbatim>\<open>VerifyBeforeCutover\<close> made it.
  The schema cache is the function behind \<^verbatim>\<open>TableSchemaCache.Get\<close>. Time stamps are left out.
\<close>

record IterativeVerifier =
  CursorConfig :: "CursorConfig_struct option"
  BinlogStreamer :: "unit option"
  TableSchemaCache :: "(string \<Rightarrow> string \<Rightarrow> schema_Table option) option"
  SourceDB :: "unit option"
  TargetDB :: "unit option"
  Tables :: "schema_Table list"
  IgnoredTables :: "string list"
  DatabaseRewrites :: "string \<rightharpoonup> string"
  TableRewrites :: "string \<rightharpoonup> string"
  Concurrency :: int
  reverifyStore :: "ReverifyStore option"
  reverifyChan :: "chan option"
  logger :: "unit option"
  beforeCutoverVerifyDone :: bool
  verifyDuringCutoverStarted :: bool
  wg :: "nat option"
  verificationResult :: VerificationResult
  verificationErr :: "error option"
  backgroundVerificationWg :: "nat option"

subsection \<open>The binlog event listener\<close>

text \<open>A \<^verbatim>\<open>DMLEvent\<close>: what its methods \<^verbatim>\<open>TableSchema()\<close> and \<^verbatim>\<open>PK()\<close> return.\<close>

record DMLEvent =
  TableSchema :: schema_Table
  PK :: "error + uint64"

fun range_IgnoredTables :: "string list \<Rightarrow> schema_Table \<Rightarrow> bool" where
  "range_IgnoredTables [] table = False"
| "range_IgnoredTables (ignored # rest) table =
     (if Name table = ignored then True else range_IgnoredTables rest table)"

definition tableIsIgnored :: "IterativeVerifier \<Rightarrow> schema_Table \<Rightarrow> bool" where
  "tableIsIgnored v table = range_IgnoredTables (IgnoredTables v) table"

text \<open>
  \<^verbatim>\<open>v.reverifyChan <- entry\<close>: a send on a nil channel blocks for ever, a send on a closed
  channel panics, and a send on an open unbuffered channel completes when the receiver
  goroutine is there to take the entry.
\<close>

definition chan_send :: "IterativeVerifier \<Rightarrow> ReverifyEntry \<Rightarrow> unit outcome \<times> IterativeVerifier" where
  "chan_send v entry =
     (case reverifyChan v of
        None \<Rightarrow> (Blocks, v)
      | Some c \<Rightarrow>
         if closed c then (Panics SendOnClosedChannel, v)
         else if wg v = None then (Blocks, v)
         else (Returns (), v\<lparr>reverifyChan := Some (c\<lparr>sent := sent c @ [entry]\<rparr>)\<rparr>))"

text \<open>The loop \<^verbatim>\<open>for _, ev := range evs\<close> of the listener.\<close>

fun range_evs :: "IterativeVerifier \<Rightarrow> DMLEvent list \<Rightarrow> error option outcome \<times> IterativeVerifier" where
  "range_evs v [] = (Returns None, v)"
| "range_evs v (ev # rest) =
     (if tableIsIgnored v (TableSchema ev) then range_evs v rest
      else case PK ev of
             Inl err \<Rightarrow> (Returns (Some err), v)
           | Inr pk \<Rightarrow>
              (case chan_send v \<lparr>Pk = pk, Table_entry = TableSchema ev\<rparr> of
                 (Returns _, v) \<Rightarrow> range_evs v rest
               | (Panics p, v) \<Rightarrow> (Panics p, v)
               | (Blocks, v) \<Rightarrow> (Blocks, v)))"

definition binlogEventListener :: "IterativeVerifier \<Rightarrow> DMLEvent list \<Rightarrow>
    error option outcome \<times> IterativeVerifier" where
  "binlogEventListener v evs =
     (if verifyDuringCutoverStarted v
      then (Returns (Some (Error ''cutover has started but received binlog event!'')), v)
      else range_evs v evs)"

text \<open>The entry the listener sends for an event, and the entries a verifier's channel holds.\<close>

definition entry_of_event :: "uint64 \<Rightarrow> DMLEvent \<Rightarrow> ReverifyEntry" where
  "entry_of_event pk ev = \<lparr>Pk = pk, Table_entry = TableSchema ev\<rparr>"

definition emitted :: "IterativeVerifier \<Rightarrow> ReverifyEntry list" where
  "emitted v = (case reverifyChan v of None \<Rightarrow> [] | Some c \<Rightarrow> sent c)"

text \<open>The entries of the events of a list that are not ignored and have a pk.\<close>

fun entries_of_events :: "IterativeVerifier \<Rightarrow> DMLEvent list \<Rightarrow> ReverifyEntry list" where
  "entries_of_events v [] = []"
| "entries_of_events v (ev # rest) =
     (if tableIsIgnored v (TableSchema ev) then entries_of_events v rest
      else case PK ev of
             Inl _ \<Rightarrow> entries_of_events v rest
           | Inr pk \<Rightarrow> entry_of_event pk ev # entries_of_events v rest)"

text \<open>An event whose pk extraction fails and whose table is not ignored.\<close>

definition pk_fails :: "IterativeVerifier \<Rightarrow> DMLEvent \<Rightarrow> bool" where
  "pk_fails v ev = (\<not> tableIsIgnored v (TableSchema ev) \<and> isl (PK ev))"

subsection \<open>Formatting\<close>

text \<open>\<^verbatim>\<open>strconv.FormatUint(n, 10)\<close> and the verb \<^verbatim>\<open>%d\<close> of \<^verbatim>\<open>fmt\<close>.\<close>

function FormatUint :: "nat \<Rightarrow> string" where
  "FormatUint n =
     (if n < 10 then [''0123456789'' ! n]
      else FormatUint (n div 10) @ [''0123456789'' ! (n mod 10)])"
  by pat_completeness auto
termination
  by (relation "measure id") auto

declare FormatUint.simps [simp del]

definition FormatInt :: "int \<Rightarrow> string" where
  "FormatInt n = (if n < 0 then ''-'' @ FormatUint (nat (- n)) else FormatUint (nat n))"

text \<open>\<^verbatim>\<open>strings.Join(elems, sep)\<close>\<close>

fun strings_Join :: "string list \<Rightarrow> string \<Rightarrow> string" where
  "strings_Join [] sep = []"
| "strings_Join [x] sep = x"
| "strings_Join (x # y # ys) sep = x @ sep @ strings_Join (y # ys) sep"

text \<open>\<^verbatim>\<open>(*schema.Table).String()\<close> of go-mysql: schema and name with a dot.\<close>

definition Table_String :: "schema_Table \<Rightarrow> string" where
  "Table_String table = Schema table @ ''.'' @ Name table"

subsection \<open>Initialize\<close>

definition SanityCheckParameters :: "IterativeVerifier \<Rightarrow> error option" where
  "SanityCheckParameters v =
     (if CursorConfig v = None then Some (Error ''CursorConfig must not be nil'')
      else if BinlogStreamer v = None then Some (Error ''BinlogStreamer must not be nil'')
      else if SourceDB v = None then Some (Error ''SourceDB must not be nil'')
      else if TargetDB v = None then Some (Error ''TargetDB must not be nil'')
      else if Concurrency v \<le> 0
        then Some (Error (''iterative verifier concurrency must be greater than 0, not ''
                          @ FormatInt (Concurrency v)))
      else if TableSchemaCache v = None
        then Some (Error ''iterative verifier must be given the table schema cache'')
      else None)"

definition Initialize :: "heap \<times> IterativeVerifier \<Rightarrow> error option \<times> heap \<times> IterativeVerifier" where
  "Initialize s =
     (let (h, v) = s;
          v = v\<lparr>logger := Some ()\<rparr>
      in case SanityCheckParameters v of
           Some err \<Rightarrow> (Some err, h, v)
         | None \<Rightarrow>
            (let (h, r) = NewReverifyStore h;
                 v = v\<lparr>reverifyStore := Some r\<rparr>;
                 v = v\<lparr>reverifyChan := Some \<lparr>closed = False, sent = []\<rparr>\<rparr>
             in (None, h, v)))"

subsection \<open>The worker pool\<close>

text \<open>
  Modelled from the spec: \<^verbatim>\<open>WorkerPool.Run\<close> is not in \<^verbatim>\<open>iterative_verifier.go\<close>. Section 5
  of the specification: the pool runs N workers over K indexed jobs; after the first job
  that returns an error no further job is started; the pool returns the slice of each
  worker's last result and that error, and a worker that ran no job leaves nil in its
  slot. The model runs the jobs one at a time in index order; \<open>sched i\<close> names the worker
  that takes job \<open>i\<close>. A job may change the state \<open>'s\<close> (the scanner sends on the channel).
\<close>

fun pool_jobs :: "(nat \<Rightarrow> nat) \<Rightarrow> (nat \<Rightarrow> 's \<Rightarrow> ('r \<times> error option) outcome \<times> 's) \<Rightarrow>
    nat list \<Rightarrow> 'r option list \<Rightarrow> 's \<Rightarrow> ('r option list \<times> error option) outcome \<times> 's" where
  "pool_jobs sched process [] results s = (Returns (results, None), s)"
| "pool_jobs sched process (i # rest) results s =
     (case process i s of
        (Returns (r, err), s) \<Rightarrow>
          (let results = results[sched i mod length results := Some r]
           in case err of
                Some e \<Rightarrow> (Returns (results, Some e), s)
              | None \<Rightarrow> pool_jobs sched process rest results s)
      | (Panics p, s) \<Rightarrow> (Panics p, s)
      | (Blocks, s) \<Rightarrow> (Blocks, s))"

definition pool_Run :: "int \<Rightarrow> (nat \<Rightarrow> nat) \<Rightarrow> (nat \<Rightarrow> 's \<Rightarrow> ('r \<times> error option) outcome \<times> 's) \<Rightarrow>
    nat \<Rightarrow> 's \<Rightarrow> ('r option list \<times> error option) outcome \<times> 's" where
  "pool_Run concurrency sched process n s =
     (if concurrency < 0 then (Panics MakesliceLenOutOfRange, s)
      else if concurrency = 0 \<and> 0 < n then (Blocks, s)
      else pool_jobs sched process [0..<n] (replicate (nat concurrency) None) s)"

subsection \<open>Fingerprints of a pk batch\<close>

text \<open>
  The databases are outside the program: \<open>GetHashes\<close> stands for
  \<^verbatim>\<open>v.GetHashes(db, schema, table, pkColumn, columns, pks)\<close> after its retries, as a function
  of the database (\<open>True\<close> the source, \<open>False\<close> the target), the schema and table names
  and the pks.
\<close>

type_synonym fetch = "bool \<Rightarrow> string \<Rightarrow> string \<Rightarrow> uint64 list \<Rightarrow> error + (uint64, bytes) gomap"

definition compareFingerprints :: "fetch \<Rightarrow> IterativeVerifier \<Rightarrow> uint64 list \<Rightarrow> schema_Table \<Rightarrow>
    error + uint64 list" where
  "compareFingerprints GetHashes v pks table =
     (let targetDb = (case DatabaseRewrites v (Schema table) of
                        Some targetDbName \<Rightarrow> targetDbName | None \<Rightarrow> Schema table);
          targetTable = (case TableRewrites v (Name table) of
                           Some targetTableName \<Rightarrow> targetTableName | None \<Rightarrow> Name table)
      in case GetHashes True (Schema table) (Name table) pks of
           Inl sourceErr \<Rightarrow>  Inl sourceErr
         | Inr sourceHashes \<Rightarrow>
            (case GetHashes False targetDb targetTable pks of
               Inl targetErr \<Rightarrow> Inl targetErr
             | Inr targetHashes \<Rightarrow> Inr (compareHashes sourceHashes targetHashes)))"

definition verifyPksDuringCutover :: "fetch \<Rightarrow> IterativeVerifier \<Rightarrow> schema_Table \<Rightarrow> uint64 list \<Rightarrow>
    VerificationResult \<times> error option" where
  "verifyPksDuringCutover GetHashes v table pks =
     (case compareFingerprints GetHashes v pks table of
        Inl err \<Rightarrow> (\<lparr>DataCorrect = False, Message = []\<rparr>, Some err)
      | Inr mismatchedPks \<Rightarrow>
         if length mismatchedPks > 0
         then (let pkStrings = map (\<lambda>pk. FormatUint (unat pk)) mismatchedPks
               in (\<lparr>DataCorrect = False,
                    Message = ''verification failed on table: '' @ Table_String table
                              @ '' for pks: '' @ strings_Join pkStrings '',''\<rparr>, None))
         else (\<lparr>DataCorrect = True, Message = []\<rparr>, None))"

subsection \<open>VerifyDuringCutover\<close>

text \<open>The \<^verbatim>\<open>Process\<close> function of the cutover pool, for the batch at \<open>reverifyBatchIndex\<close>.
  A table the schema cache does not know is a nil pointer, and \<^verbatim>\<open>table.String()\<close>
  dereferences it.\<close>

definition erroredOrFailed :: error where
  "erroredOrFailed = Error ''reverify errored or failed''"

definition process_batch :: "fetch \<Rightarrow> IterativeVerifier \<Rightarrow> ReverifyBatch list \<Rightarrow> nat \<Rightarrow>
    (verificationResultAndError \<times> error option) outcome" where
  "process_batch GetHashes v allBatches reverifyBatchIndex =
     (let reverifyBatch = allBatches ! reverifyBatchIndex;
          table = (case TableSchemaCache v of
                     None \<Rightarrow> None
                   | Some get \<Rightarrow> get (SchemaName (Table reverifyBatch)) (TableName (Table reverifyBatch)))
      in case table of
           None \<Rightarrow> Panics NilPointerDereference
         | Some table \<Rightarrow>
            (let (verificationResult, err) = verifyPksDuringCutover GetHashes v table (Pks reverifyBatch);
                 resultAndErr = \<lparr>Result = verificationResult, Error_of = err\<rparr>
             in if ErroredOrFailed resultAndErr then Returns (resultAndErr, Some erroredOrFailed)
                else Returns (resultAndErr, None)))"

text \<open>
  The loop \<^verbatim>\<open>for i := 0; i < v.Concurrency; i++\<close> over the pool's results, on the loop
  state \<^verbatim>\<open>(result, err)\<close>; \<open>is\<close> lists the values of \<open>i\<close> still to come. A nil slot is
  skipped, a failed or errored slot breaks the loop.
\<close>

fun range_results :: "verificationResultAndError option list \<Rightarrow> nat list \<Rightarrow>
    VerificationResult \<times> error option \<Rightarrow> panic + VerificationResult \<times> error option" where
  "range_results results [] st = Inr st"
| "range_results results (i # rest) st =
     (if i \<ge> length results then Inl IndexOutOfRange
      else case results ! i of
             None \<Rightarrow> range_results results rest st
           | Some resultAndErr \<Rightarrow>
              (let st = (Result resultAndErr, Error_of resultAndErr)
               in if ErroredOrFailed resultAndErr then Inr st
                  else range_results results rest st))"

text \<open>
  \<^verbatim>\<open>VerifyDuringCutover\<close>. It sets the flag, closes the channel (a nil or closed channel
  panics), waits on \<^verbatim>\<open>v.wg\<close> (a nil pointer panics), by which time the receiver has passed
  every entry sent to \<^verbatim>\<open>Add\<close>, freezes the store with \<^verbatim>\<open>int(v.CursorConfig.BatchSize)\<close>,
  runs the pool and reads its results. \<^verbatim>\<open>var result VerificationResult\<close> and
  \<^verbatim>\<open>var err error\<close> start as the zero values.
\<close>

definition VerifyDuringCutover :: "(nat \<Rightarrow> nat) \<Rightarrow> fetch \<Rightarrow> heap \<times> IterativeVerifier \<Rightarrow>
    (VerificationResult \<times> error option) outcome \<times> heap \<times> IterativeVerifier" where
  "VerifyDuringCutover sched GetHashes s =
     (let (h, v) = s;
          v = v\<lparr>verifyDuringCutoverStarted := True\<rparr>
      in case reverifyChan v of
           None \<Rightarrow> (Panics CloseOfNilChannel, h, v)
         | Some c \<Rightarrow>
      if closed c then (Panics CloseOfClosedChannel, h, v)
      else let v = v\<lparr>reverifyChan := Some (c\<lparr>closed := True\<rparr>)\<rparr>
      in case wg v of
           None \<Rightarrow> (Panics NilPointerDereference, h, v)
         | Some _ \<Rightarrow>
      (case reverifyStore v of
           None \<Rightarrow> (Panics NilPointerDereference, h, v)
         | Some r \<Rightarrow>
      (case Adds (h, r) (sent c) of
           Inl p \<Rightarrow> (Panics p, h, v)
         | Inr (h, r) \<Rightarrow>
      let v = v\<lparr>reverifyStore := Some r, wg := Some 0\<rparr>
      in case CursorConfig v of
           None \<Rightarrow> (Panics NilPointerDereference, h, v)
         | Some cursorConfig \<Rightarrow>
      (case FreezeAndBatchByTable h r (sint (BatchSize cursorConfig)) of
           Inl p \<Rightarrow> (Panics p, h, v)
         | Inr (allBatches, h) \<Rightarrow>
      (case logger v of
           None \<Rightarrow> (Panics NilPointerDereference, h, v)
         | Some _ \<Rightarrow>
      (case pool_Run (Concurrency v) sched
              (\<lambda>i u. (process_batch GetHashes v allBatches i, u)) (length allBatches) () of
           (Panics p, _) \<Rightarrow> (Panics p, h, v)
         | (Blocks, _) \<Rightarrow> (Blocks, h, v)
         | (Returns (results, _), _) \<Rightarrow>
      (case range_results results [0..<nat (Concurrency v)]
              (\<lparr>DataCorrect = False, Message = []\<rparr>, None) of
           Inl p \<Rightarrow> (Panics p, h, v)
         | Inr (result, err) \<Rightarrow> (Returns (result, err), h, v))))))))"

subsection \<open>VerifyBeforeCutover and StartInBackground\<close>

text \<open>
  The table scanner reads the databases through a cursor: \<open>scan table\<close> stands for the
  mismatched pks that \<^verbatim>\<open>verifyTableBeforeCutover(table)\<close> sends, in order, and the error
  it ends with.
\<close>

type_synonym scanner = "schema_Table \<Rightarrow> uint64 list \<times> error option"

fun send_all :: "IterativeVerifier \<Rightarrow> ReverifyEntry list \<Rightarrow> unit outcome \<times> IterativeVerifier" where
  "send_all v [] = (Returns (), v)"
| "send_all v (entry # rest) =
     (case chan_send v entry of
        (Returns _, v) \<Rightarrow> send_all v rest
      | (Panics p, v) \<Rightarrow> (Panics p, v)
      | (Blocks, v) \<Rightarrow> (Blocks, v))"

definition process_table :: "scanner \<Rightarrow> nat \<Rightarrow> IterativeVerifier \<Rightarrow>
    (unit \<times> error option) outcome \<times> IterativeVerifier" where
  "process_table scan tableIndex v =
     (let table = Tables v ! tableIndex;
          (mismatchedPks, err) = scan table
      in case send_all v (map (\<lambda>pk. \<lparr>Pk = pk, Table_entry = table\<rparr>) mismatchedPks) of
           (Returns _, v) \<Rightarrow> (Returns ((), err), v)
         | (Panics p, v) \<Rightarrow> (Panics p, v)
         | (Blocks, v) \<Rightarrow> (Blocks, v))"

text \<open>
  \<^verbatim>\<open>VerifyBeforeCutover\<close> has no check at its entry: its first statement is
  \<^verbatim>\<open>v.logger.Info(...)\<close>, and logrus reads the logger through the entry pointer, which is
  nil before \<^verbatim>\<open>Initialize\<close>. It then starts the receiver goroutine, attaches the listener
  (a method call on \<^verbatim>\<open>v.BinlogStreamer\<close>), scans the tables through the pool and sets
  \<^verbatim>\<open>beforeCutoverVerifyDone\<close>.
\<close>

definition VerifyBeforeCutover :: "(nat \<Rightarrow> nat) \<Rightarrow> scanner \<Rightarrow> IterativeVerifier \<Rightarrow>
    error option outcome \<times> IterativeVerifier" where
  "VerifyBeforeCutover sched scan v =
     (case logger v of
        None \<Rightarrow> (Panics NilPointerDereference, v)
      | Some _ \<Rightarrow>
         (let v = v\<lparr>wg := Some 1\<rparr>
          in case BinlogStreamer v of
               None \<Rightarrow> (Panics NilPointerDereference, v)
             | Some _ \<Rightarrow>
                (case pool_Run (Concurrency v) sched (process_table scan) (length (Tables v)) v of
                   (Panics p, v) \<Rightarrow> (Panics p, v)
                 | (Blocks, v) \<Rightarrow> (Blocks, v)
                 | (Returns (_, err), v) \<Rightarrow>
                    (let v = v\<lparr>beforeCutoverVerifyDone := True\<rparr>
                     in (Returns err, v)))))"

text \<open>
  \<^verbatim>\<open>StartInBackground\<close>: three checks at entry, then the fields of the background run
  are reset and the goroutine that calls \<^verbatim>\<open>VerifyDuringCutover\<close> is started. The third
  component says whether the \<^verbatim>\<open>go\<close> statement was reached.
\<close>

definition StartInBackground :: "IterativeVerifier \<Rightarrow> error option \<times> IterativeVerifier \<times> bool" where
  "StartInBackground v =
     (if logger v = None
        then (Some (Error ''Initialize() must be called before this''), v, False)
      else if \<not> beforeCutoverVerifyDone v
        then (Some (Error ''VerifyBeforeCutover() must be called before this''), v, False)
      else if verifyDuringCutoverStarted v
        then (Some (Error ''verification during cutover has already been started''), v, False)
      else
        (let v = v\<lparr>verificationResult := \<lparr>DataCorrect = False, Message = []\<rparr>\<rparr>;
             v = v\<lparr>verificationErr := None\<rparr>;
             v = v\<lparr>backgroundVerificationWg := Some 1\<rparr>
         in (None, v, True)))"

text \<open>Concrete values for the worked examples.\<close>

definition heap0 :: heap where
  "heap0 = \<lparr>maps = (\<lambda>_. []), next_addr = 0\<rparr>"

definition table_t1 :: schema_Table where
  "table_t1 = \<lparr>Schema = ''db'', Name = ''t1'', Columns = []\<rparr>"

definition table_t2 :: schema_Table where
  "table_t2 = \<lparr>Schema = ''db'', Name = ''t2'', Columns = []\<rparr>"

definition id_t1 :: TableIdentifier where
  "id_t1 = \<lparr>SchemaName = ''db'', TableName = ''t1''\<rparr>"

definition id_t2 :: TableIdentifier where
  "id_t2 = \<lparr>SchemaName = ''db'', TableName = ''t2''\<rparr>"

definition entries5 :: "ReverifyEntry list" where
  "entries5 = [\<lparr>Pk = 1, Table_entry = table_t1\<rparr>, \<lparr>Pk = 2, Table_entry = table_t1\<rparr>,
     \<lparr>Pk = 1, Table_entry = table_t1\<rparr>, \<lparr>Pk = 7, Table_entry = table_t2\<rparr>,
     \<lparr>Pk = 3, Table_entry = table_t1\<rparr>]"

text \<open>The zero value of the struct, configured but not initialized, and a schedule.\<close>

definition schema_cache :: "string \<Rightarrow> string \<Rightarrow> schema_Table option" where
  "schema_cache schemaName tableName =
     (if schemaName = ''db'' \<and> tableName = ''t1'' then Some table_t1
      else if schemaName = ''db'' \<and> tableName = ''t2'' then Some table_t2 else None)"

definition verifier0 :: IterativeVerifier where
  "verifier0 = \<lparr>CursorConfig = Some \<lparr>BatchSize = 2\<rparr>, BinlogStreamer = Some (),
     TableSchemaCache = Some schema_cache, SourceDB = Some (), TargetDB = Some (),
     Tables = [table_t1, table_t2], IgnoredTables = [''t2''],
     DatabaseRewrites = Map.empty, TableRewrites = Map.empty, Concurrency = 2,
     reverifyStore = None, reverifyChan = None, logger = None,
     beforeCutoverVerifyDone = False, verifyDuringCutoverStarted = False, wg = None,
     verificationResult = \<lparr>DataCorrect = False, Message = []\<rparr>, verificationErr = None,
     backgroundVerificationWg = None\<rparr>"

definition round_robin :: "nat \<Rightarrow> nat" where
  "round_robin i = i"

text \<open>Databases that agree on every row, and a scan that finds no mismatch.\<close>

definition equal_databases :: fetch where
  "equal_databases db schemaName tableName pks = Inr (map (\<lambda>pk. (pk, [0x2A])) pks)"

definition clean_scan :: scanner where
  "clean_scan table = ([], None)"

subsection \<open>The fingerprint query\<close>

text \<open>\<^verbatim>\<open>schema.TYPE_FLOAT\<close> of go-mysql, the second constant of its column types.\<close>

definition TYPE_FLOAT :: int where
  "TYPE_FLOAT = 2"

text \<open>
  Modelled from the spec: \<^verbatim>\<open>quoteField\<close> and \<^verbatim>\<open>QuotedTableNameFromString\<close> are not in
  \<^verbatim>\<open>iterative_verifier.go\<close>. Section 6 of the specification writes a quoted column as
  the name between backticks and the table as the quoted schema, a dot and the quoted
  table.
\<close>

definition quoteField :: "string \<Rightarrow> string" where
  "quoteField field = ''`'' @ field @ ''`''"

definition QuotedTableNameFromString :: "string \<Rightarrow> string \<Rightarrow> string" where
  "QuotedTableNameFromString database table = ''`'' @ database @ ''`.`'' @ table @ ''`''"

text \<open>
  Modelled from the spec: the select builder is the squirrel library, outside the
  repository. A builder is the record of what the calls \<^verbatim>\<open>Select\<close>, \<^verbatim>\<open>From\<close>,
  \<^verbatim>\<open>Where(sq.Eq{column: values})\<close> and \<^verbatim>\<open>OrderBy\<close> gave it, and \<^verbatim>\<open>ToSql\<close> writes the
  statement in the shape of section 6, \<^verbatim>\<open>SELECT .. FROM .. WHERE col IN (?,..,?) ORDER BY ..\<close>,
  with one placeholder and one argument per value (section 4.2). The specification says
  nothing on an empty value list; the model writes an empty parenthesis there.
\<close>

record SelectBuilder =
  sb_Columns :: "string list"
  sb_From :: "string option"
  sb_WhereParts :: "(string \<times> uint64 list) list"
  sb_OrderBys :: "string list"

definition sq_Select :: "string \<Rightarrow> SelectBuilder" where
  "sq_Select column = \<lparr>sb_Columns = [column], sb_From = None, sb_WhereParts = [], sb_OrderBys = []\<rparr>"

definition sq_From :: "SelectBuilder \<Rightarrow> string \<Rightarrow> SelectBuilder" where
  "sq_From b from = b\<lparr>sb_From := Some from\<rparr>"

definition sq_Where_Eq :: "SelectBuilder \<Rightarrow> string \<Rightarrow> uint64 list \<Rightarrow> SelectBuilder" where
  "sq_Where_Eq b column vals = b\<lparr>sb_WhereParts := sb_WhereParts b @ [(column, vals)]\<rparr>"

definition sq_OrderBy :: "SelectBuilder \<Rightarrow> string \<Rightarrow> SelectBuilder" where
  "sq_OrderBy b orderBy = b\<lparr>sb_OrderBys := sb_OrderBys b @ [orderBy]\<rparr>"

definition sq_Placeholders :: "nat \<Rightarrow> string" where
  "sq_Placeholders n = strings_Join (replicate n ''?'') '',''"

definition sq_Eq_sql :: "string \<times> uint64 list \<Rightarrow> string" where
  "sq_Eq_sql part = (case part of (column, vals) \<Rightarrow>
     column @ '' IN ('' @ sq_Placeholders (length vals) @ '')'')"

definition sq_ToSql :: "SelectBuilder \<Rightarrow> error + string \<times> uint64 list" where
  "sq_ToSql b =
     (if sb_Columns b = [] then Inl (Error ''select statements must have at least one result column'')
      else Inr (''SELECT '' @ strings_Join (sb_Columns b) '', ''
                @ (case sb_From b of None \<Rightarrow> [] | Some from \<Rightarrow> '' FROM '' @ from)
                @ (if sb_WhereParts b = [] then []
                   else '' WHERE '' @ strings_Join (map sq_Eq_sql (sb_WhereParts b)) '' AND '')
                @ (if sb_OrderBys b = [] then []
                   else '' ORDER BY '' @ strings_Join (sb_OrderBys b) '', ''),
                concat (map snd (sb_WhereParts b))))"

text \<open>From the source: \<^verbatim>\<open>normalizeAndQuoteColumn\<close>, \<^verbatim>\<open>rowMd5Selector\<close> with its loop
  \<^verbatim>\<open>for idx, column := range columns\<close> that fills \<^verbatim>\<open>hashStrs[idx]\<close>, and
  \<^verbatim>\<open>GetMd5HashesSql\<close>.\<close>

definition normalizeAndQuoteColumn :: "TableColumn \<Rightarrow> string" where
  "normalizeAndQuoteColumn column =
     (let quoted = quoteField (Name_col column)
      in if Type_col column = TYPE_FLOAT
         then ''(if ('' @ quoted @ '' = '-0', 0, '' @ quoted @ ''))''
         else quoted)"

fun range_columns :: "TableColumn list \<Rightarrow> nat \<Rightarrow> string list \<Rightarrow> string list" where
  "range_columns [] idx hashStrs = hashStrs"
| "range_columns (column # rest) idx hashStrs =
     (let quotedCol = normalizeAndQuoteColumn column
      in range_columns rest (Suc idx)
           (hashStrs[idx := ''MD5(COALESCE('' @ quotedCol @ '', 'NULL'))'']))"

definition rowMd5Selector :: "TableColumn list \<Rightarrow> string \<Rightarrow> SelectBuilder" where
  "rowMd5Selector columns pkColumn =
     (let quotedPK = quoteField pkColumn;
          hashStrs = replicate (length columns) [];
          hashStrs = range_columns columns 0 hashStrs
      in sq_Select (quotedPK @ '', MD5(CONCAT('' @ strings_Join hashStrs '','' @ '')) AS row_fingerprint''))"

definition GetMd5HashesSql :: "string \<Rightarrow> string \<Rightarrow> string \<Rightarrow> TableColumn list \<Rightarrow> uint64 list \<Rightarrow>
    error + string \<times> uint64 list" where
  "GetMd5HashesSql schema table pkColumn columns pks =
     (let quotedPK = quoteField pkColumn
      in sq_ToSql
          (sq_OrderBy
            (sq_Where_Eq
              (sq_From (rowMd5Selector columns pkColumn) (QuotedTableNameFromString schema table))
              quotedPK pks)
            quotedPK))"

text \<open>The reference to a column inside the fingerprint, as the specification words it: the
  quoted column, and for a float column an IF expression that turns the text -0 into 0.\<close>

definition column_reference :: "TableColumn \<Rightarrow> string" where
  "column_reference c =
     (if Type_col c = TYPE_FLOAT
      then ''(if (`'' @ Name_col c @ ''` = '-0', 0, `'' @ Name_col c @ ''`))''
      else ''`'' @ Name_col c @ ''`'')"

text \<open>The verifier after \<^verbatim>\<open>Initialize\<close>, and after \<^verbatim>\<open>VerifyBeforeCutover\<close> found no
  mismatch; some events, of which the third has no pk and the second is on an ignored table.\<close>

definition heap_ready :: heap where
  "heap_ready = \<lparr>maps = (\<lambda>_. []), next_addr = 1\<rparr>"

definition verifier_initialized :: IterativeVerifier where
  "verifier_initialized = verifier0\<lparr>
     reverifyStore := Some \<lparr>MapStore = Some 0, SortedStore = [], RowCount = 0, EmitLogPerRowCount = 10000\<rparr>,
     reverifyChan := Some \<lparr>closed = False, sent = []\<rparr>, logger := Some ()\<rparr>"

definition verifier_ready :: IterativeVerifier where
  "verifier_ready = verifier_initialized\<lparr>beforeCutoverVerifyDone := True, wg := Some 1\<rparr>"

definition verifier_cutover :: IterativeVerifier where
  "verifier_cutover = verifier_ready\<lparr>verifyDuringCutoverStarted := True,
     reverifyChan := Some \<lparr>closed = True, sent = []\<rparr>, wg := Some 0\<rparr>"

definition events_before :: "DMLEvent list" where
  "events_before = [\<lparr>TableSchema = table_t1, PK = Inr 5\<rparr>, \<lparr>TableSchema = table_t2, PK = Inr 6\<rparr>]"

definition event_without_pk :: DMLEvent where
  "event_without_pk = \<lparr>TableSchema = table_t1, PK = Inl (Error ''no pk'')\<rparr>"

definition events_after :: "DMLEvent list" where
  "events_after = [\<lparr>TableSchema = table_t1, PK = Inr 9\<rparr>]"

definition columns2 :: "TableColumn list" where
  "columns2 = [\<lparr>Name_col = ''id'', Type_col = 1\<rparr>, \<lparr>Name_col = ''price'', Type_col = 2\<rparr>]"


definition keys_of :: "('k, 'v) gomap \<Rightarrow> 'k set" where
  "keys_of m = fst ` set m"

text \<open>Two calls of \<^verbatim>\<open>FreezeAndBatchByTable\<close> in a row on one store variable:
  what the first and the second call return.\<close>

definition two_freezes :: "heap \<Rightarrow> ReverifyStore \<Rightarrow> int \<Rightarrow> panic + ReverifyBatch list \<times> ReverifyBatch list" where
  "two_freezes h r batchsize =
     (case FreezeAndBatchByTable h r batchsize of
        Inl p \<Rightarrow> Inl p
      | Inr (first, h) \<Rightarrow>
         (case FreezeAndBatchByTable h r batchsize of
            Inl p \<Rightarrow> Inl p
          | Inr (second, h) \<Rightarrow> Inr (first, second)))"

section \<open>Proofs\<close>

subsection \<open>The comparator\<close>

lemma fst_update_unit: "fst ` set (AList.update k () m) = insert k (fst ` set m)"
  by (induction m) auto

lemma range_target_step:
  "range_target source ((pk, h) # rest) ms =
     range_target source rest (if map_of source pk = Some h then ms else AList.update pk () ms)"
  by (auto simp: index_bytes_def bytes_Equal_def split: option.splits)

lemma range_source_step:
  "range_source target ((pk, h) # rest) ms =
     range_source target rest (if map_of target pk = Some h then ms else AList.update pk () ms)"
  by (auto simp: index_bytes_def bytes_Equal_def split: option.splits)

lemma range_target_keys:
  "distinct (map fst target) \<Longrightarrow>
   fst ` set (range_target source target ms) =
     fst ` set ms \<union> {pk. \<exists>h. map_of target pk = Some h \<and> map_of source pk \<noteq> Some h}"
proof (induction target arbitrary: ms)
  case Nil
  then show ?case by simp
next
  case (Cons e target)
  obtain pk h where e: "e = (pk, h)" by (cases e)
  from Cons.prems e have fresh: "pk \<notin> fst ` set target" and d: "distinct (map fst target)"
    by auto
  from fresh have none: "map_of target pk = None"
    by (simp add: map_of_eq_None_iff)
  let ?ms = "if map_of source pk = Some h then ms else AList.update pk () ms"
  let ?rest = "{k. \<exists>h. map_of target k = Some h \<and> map_of source k \<noteq> Some h}"
  have keys: "fst ` set ?ms = fst ` set ms \<union> (if map_of source pk = Some h then {} else {pk})"
    by (simp add: fst_update_unit)
  have here: "{k. \<exists>h'. map_of ((pk, h) # target) k = Some h' \<and> map_of source k \<noteq> Some h'}
      = (if map_of source pk = Some h then {} else {pk}) \<union> ?rest"
    using none by (auto split: if_splits)
  have "fst ` set (range_target source (e # target) ms) = fst ` set ?ms \<union> ?rest"
    unfolding e range_target_step by (rule Cons.IH[OF d])
  also have "\<dots> = fst ` set ms \<union> ((if map_of source pk = Some h then {} else {pk}) \<union> ?rest)"
    unfolding keys by (simp only: Un_assoc)
  finally show ?case
    unfolding e here .
qed

lemma range_source_keys:
  "distinct (map fst source) \<Longrightarrow>
   fst ` set (range_source target source ms) =
     fst ` set ms \<union> {pk. \<exists>h. map_of source pk = Some h \<and> map_of target pk \<noteq> Some h}"
proof (induction source arbitrary: ms)
  case Nil
  then show ?case by simp
next
  case (Cons e source)
  obtain pk h where e: "e = (pk, h)" by (cases e)
  from Cons.prems e have fresh: "pk \<notin> fst ` set source" and d: "distinct (map fst source)"
    by auto
  from fresh have none: "map_of source pk = None"
    by (simp add: map_of_eq_None_iff)
  let ?ms = "if map_of target pk = Some h then ms else AList.update pk () ms"
  let ?rest = "{k. \<exists>h. map_of source k = Some h \<and> map_of target k \<noteq> Some h}"
  have keys: "fst ` set ?ms = fst ` set ms \<union> (if map_of target pk = Some h then {} else {pk})"
    by (simp add: fst_update_unit)
  have here: "{k. \<exists>h'. map_of ((pk, h) # source) k = Some h' \<and> map_of target k \<noteq> Some h'}
      = (if map_of target pk = Some h then {} else {pk}) \<union> ?rest"
    using none by (auto split: if_splits)
  have "fst ` set (range_source target (e # source) ms) = fst ` set ?ms \<union> ?rest"
    unfolding e range_source_step by (rule Cons.IH[OF d])
  also have "\<dots> = fst ` set ms \<union> ((if map_of target pk = Some h then {} else {pk}) \<union> ?rest)"
    unfolding keys by (simp only: Un_assoc)
  finally show ?case
    unfolding e here .
qed

lemma range_target_distinct:
  "distinct (map fst ms) \<Longrightarrow> distinct (map fst (range_target source target ms))"
  by (induction source target ms rule: range_target.induct)
     (auto simp: distinct_update split: prod.splits)

lemma range_source_distinct:
  "distinct (map fst ms) \<Longrightarrow> distinct (map fst (range_source target source ms))"
  by (induction target source ms rule: range_source.induct)
     (auto simp: distinct_update split: prod.splits)

lemma compareHashes_set:
  assumes "distinct (map fst src)" and "distinct (map fst tgt)"
  shows "set (compareHashes src tgt) = mismatched src tgt"
proof -
  have "set (compareHashes src tgt) =
      {pk. \<exists>h. map_of tgt pk = Some h \<and> map_of src pk \<noteq> Some h}
    \<union> {pk. \<exists>h. map_of src pk = Some h \<and> map_of tgt pk \<noteq> Some h}"
    using assms
    by (simp add: compareHashes_def range_source_keys range_target_keys)
  also have "\<dots> = mismatched src tgt"
  proof (rule set_eqI)
    fix pk
    show "pk \<in> {pk. \<exists>h. map_of tgt pk = Some h \<and> map_of src pk \<noteq> Some h}
      \<union> {pk. \<exists>h. map_of src pk = Some h \<and> map_of tgt pk \<noteq> Some h}
      \<longleftrightarrow> pk \<in> mismatched src tgt"
      unfolding mismatched_def
      by (cases "map_of src pk"; cases "map_of tgt pk") (auto simp: dom_def)
  qed
  finally show ?thesis .
qed

lemma mismatched_sym: "mismatched src tgt = mismatched tgt src"
  unfolding mismatched_def by auto

text \<open>
  C4. For two Go maps \<open>src\<close> and \<open>tgt\<close> from pk to fingerprint bytes,
  \<open>compareHashes src tgt\<close> returns exactly the pks that one map holds and the other lacks,
  or that both hold with unequal bytes; it returns no other pk, and each once.
\<close>

theorem compareHashes_exact:
  assumes "gomap_wf src" and "gomap_wf tgt"
  shows "set (compareHashes src tgt) = mismatched src tgt \<and> distinct (compareHashes src tgt)"
proof
  show "set (compareHashes src tgt) = mismatched src tgt"
    using assms by (simp add: gomap_wf_def compareHashes_set)
  show "distinct (compareHashes src tgt)"
    by (simp add: compareHashes_def range_source_distinct range_target_distinct)
qed

theorem compareHashes_exact_witness:
  "gomap_wf [(1 :: uint64, [0xAA :: 8 word]), (2, [0xBB])]
   \<and> gomap_wf [(2 :: uint64, [0xBC :: 8 word]), (3, [0xCC])]
   \<and> set (compareHashes [(1, [0xAA]), (2, [0xBB])] [(2, [0xBC]), (3, [0xCC])])
       = mismatched [(1, [0xAA]), (2, [0xBB])] [(2, [0xBC]), (3, [0xCC])]
   \<and> distinct (compareHashes [(1, [0xAA]), (2, [0xBB])] [(2, [0xBC]), (3, [0xCC])])
   \<and> compareHashes [(1, [0xAA]), (2, [0xBB])] [(2, [0xBC]), (3, [0xCC])] = [2, 3, 1]"
proof -
  have s: "gomap_wf [(1 :: uint64, [0xAA :: 8 word]), (2, [0xBB])]"
    by (simp add: gomap_wf_def)
  have t: "gomap_wf [(2 :: uint64, [0xBC :: 8 word]), (3, [0xCC])]"
    by (simp add: gomap_wf_def)
  have run: "compareHashes [(1, [0xAA]), (2, [0xBB])] [(2, [0xBC]), (3, [0xCC])] = [2, 3, 1]"
    by (simp add: compareHashes_def index_bytes_def bytes_Equal_def)
  show ?thesis
    using s t run compareHashes_exact[OF s t] by simp
qed

text \<open>
  C9. The comparator is symmetric: \<open>compareHashes src tgt\<close> and
  \<open>compareHashes tgt src\<close> return the same set of pks.
\<close>

theorem compareHashes_symmetric:
  assumes "gomap_wf src" and "gomap_wf tgt"
  shows "set (compareHashes src tgt) = set (compareHashes tgt src)"
  using assms by (simp add: gomap_wf_def compareHashes_set mismatched_sym[of src tgt])

theorem compareHashes_symmetric_witness:
  "gomap_wf [(1 :: uint64, [0xAA :: 8 word]), (2, [0xBB])]
   \<and> gomap_wf [(2 :: uint64, [0xBC :: 8 word]), (3, [0xCC])]
   \<and> set (compareHashes [(1, [0xAA]), (2, [0xBB])] [(2, [0xBC]), (3, [0xCC])])
       = set (compareHashes [(2, [0xBC]), (3, [0xCC])] [(1, [0xAA]), (2, [0xBB])])"
proof -
  have s: "gomap_wf [(1 :: uint64, [0xAA :: 8 word]), (2, [0xBB])]"
    by (simp add: gomap_wf_def)
  have t: "gomap_wf [(2 :: uint64, [0xBC :: 8 word]), (3, [0xCC])]"
    by (simp add: gomap_wf_def)
  show ?thesis
    using s t compareHashes_symmetric[OF s t] by simp
qed

subsection \<open>The reverify store\<close>










lemma keys_of_Nil: "keys_of [] = {}"
  by (simp add: keys_of_def)









lemmas example_defs = heap0_def table_t1_def table_t2_def id_t1_def id_t2_def entries5_def
  NewReverifyStore_def make_map_def Add_def heap_store_def NewTableIdentifierFromSchemaTable_def
  FreezeAndBatchByTable_def






lemma range_MapStore_deletes:
  "range_MapStore n a m (ss, h) = Inr (ss', h') \<Longrightarrow>
   maps h' a = filter (\<lambda>(t, _). t \<notin> fst ` set m) (maps h a)"
proof (induction m arbitrary: ss h)
  case Nil
  then show ?case by simp
next
  case (Cons e m)
  obtain t s where e: "e = (t, s)" by (cases e)
  from Cons.prems e have n: "\<not> n < 0" by (auto split: if_splits)
  obtain pb ss1 where inner: "range_pkSet n t s ([], ss) = (pb, ss1)"
    by (cases "range_pkSet n t s ([], ss)")
  let ?ss2 = "if length pb > 0 then ss1 @ [\<lparr>Pks = pb, Table = t\<rparr>] else ss1"
  let ?h2 = "heap_store h a (AList.delete t (maps h a))"
  from Cons.prems e n inner have "range_MapStore n a m (?ss2, ?h2) = Inr (ss', h')"
    by simp
  from Cons.IH[OF this] show ?case
    by (auto simp: e heap_store_def AList.delete_eq intro: filter_cong)
qed

lemma FreezeAndBatchByTable_again:
  assumes "MapStore r = Some a" and "FreezeAndBatchByTable h r n = Inr (bs, h')"
  shows "FreezeAndBatchByTable h' r n' = Inr ([], h')"
proof -
  from assms obtain ss where run: "range_MapStore n a (maps h a) ([], h) = Inr (ss, h')"
    by (auto simp: FreezeAndBatchByTable_def split: sum.splits)
  have "maps h' a = filter (\<lambda>(t, _). t \<notin> fst ` set (maps h a)) (maps h a)"
    by (rule range_MapStore_deletes[OF run])
  also have "\<dots> = []"
    by (force simp: filter_empty_conv)
  finally show ?thesis
    using assms(1) by (simp add: FreezeAndBatchByTable_def)
qed

text \<open>
  C2. The claim: a second call of \<open>FreezeAndBatchByTable\<close> on the same store returns
  the batches of the first call. The code: the receiver is a copy, so the caller's
  \<^verbatim>\<open>MapStore\<close> stays non-nil and its \<^verbatim>\<open>SortedStore\<close> stays unset, while the deletes
  have emptied the shared map object; the second call finds an empty map and returns no
  batch. After one \<open>Add\<close> of pk 1 the first call returns one batch and the second none.
\<close>

theorem FreezeAndBatchByTable_second_call_empty:
  "(case Adds (NewReverifyStore heap0) [\<lparr>Pk = 1, Table_entry = table_t1\<rparr>] of
      Inl p \<Rightarrow> Inl p
    | Inr (h, r) \<Rightarrow> two_freezes h r 1)
   = Inr ([\<lparr>Pks = [1], Table = id_t1\<rparr>], [])"
  by (simp add: example_defs two_freezes_def)

subsection \<open>The binlog event listener\<close>

lemma tableIsIgnored_chan [simp]:
  "tableIsIgnored (v\<lparr>reverifyChan := c\<rparr>) t = tableIsIgnored v t"
  by (simp add: tableIsIgnored_def)

lemma entries_of_events_chan [simp]:
  "entries_of_events (v\<lparr>reverifyChan := c\<rparr>) evs = entries_of_events v evs"
  by (induction evs) (auto split: sum.splits)

lemma range_evs_prefix:
  assumes "reverifyChan v = Some c" and "\<not> closed c" and "wg v \<noteq> None"
    and "\<forall>e \<in> set pre. \<not> pk_fails v e"
  shows "range_evs v (pre @ rest) =
     range_evs (v\<lparr>reverifyChan := Some (c\<lparr>sent := sent c @ entries_of_events v pre\<rparr>)\<rparr>) rest"
  using assms
proof (induction pre arbitrary: v c)
  case Nil
  then have "v\<lparr>reverifyChan := Some c\<rparr> = v" and "c\<lparr>sent := sent c\<rparr> = c"
    by (cases v; simp)+
  then show ?case by simp
next
  case (Cons ev pre)
  show ?case
  proof (cases "tableIsIgnored v (TableSchema ev)")
    case True
    with Cons.IH[OF Cons.prems(1,2,3)] Cons.prems(4) show ?thesis by simp
  next
    case False
    with Cons.prems(4) obtain pk where pk: "PK ev = Inr pk"
      by (cases "PK ev") (auto simp: pk_fails_def)
    let ?c = "c\<lparr>sent := sent c @ [entry_of_event pk ev]\<rparr>"
    let ?v = "v\<lparr>reverifyChan := Some ?c\<rparr>"
    have send: "chan_send v \<lparr>Pk = pk, Table_entry = TableSchema ev\<rparr> = (Returns (), ?v)"
      using Cons.prems(1,2,3) by (auto simp: chan_send_def entry_of_event_def)
    have step: "range_evs v ((ev # pre) @ rest) = range_evs ?v (pre @ rest)"
      using False pk send by simp
    have 1: "reverifyChan ?v = Some ?c" by simp
    have 2: "\<not> closed ?c" using Cons.prems(2) by simp
    have 3: "wg ?v \<noteq> None" using Cons.prems(3) by simp
    have 4: "\<forall>e \<in> set pre. \<not> pk_fails ?v e"
      using Cons.prems(4) by (simp add: pk_fails_def)
    show ?thesis
      unfolding step Cons.IH[OF 1 2 3 4]
      using False pk by simp
  qed
qed

lemmas verifier_defs = verifier0_def verifier_initialized_def verifier_ready_def
  verifier_cutover_def heap0_def heap_ready_def table_t1_def table_t2_def

text \<open>
  C6. When the flag \<open>verifyDuringCutoverStarted\<close> is set, the listener returns the
  protocol error for every event batch and leaves the verifier as it was: nothing is sent
  on the ingestion channel, so no entry reaches the reverify store.
\<close>

theorem listener_after_cutover_started:
  assumes "verifyDuringCutoverStarted v"
  shows "binlogEventListener v evs =
           (Returns (Some (Error ''cutover has started but received binlog event!'')), v)
     \<and> emitted (snd (binlogEventListener v evs)) = emitted v"
  using assms by (simp add: binlogEventListener_def)

theorem listener_after_cutover_started_witness:
  "verifyDuringCutoverStarted verifier_cutover
   \<and> binlogEventListener verifier_cutover events_before =
       (Returns (Some (Error ''cutover has started but received binlog event!'')), verifier_cutover)
   \<and> emitted verifier_cutover = []"
proof -
  have f: "verifyDuringCutoverStarted verifier_cutover"
    by (simp add: verifier_cutover_def)
  have "emitted verifier_cutover = []"
    by (simp add: emitted_def verifier_cutover_def)
  with f listener_after_cutover_started[OF f, of events_before] show ?thesis by simp
qed

text \<open>
  C10. The listener does not treat an event batch atomically. While the flag is unset,
  the channel is open and its receiver runs: if the first event whose pk extraction fails
  (and whose table is not ignored) is \<open>ev\<close>, after the events \<open>pre\<close>, the listener returns
  the error of \<open>ev\<close>, and what it has sent on the channel by then is one entry for each
  event of \<open>pre\<close> that is not ignored, in order, and nothing for \<open>ev\<close> or the events after it.
\<close>

theorem listener_pk_failure_not_atomic:
  assumes "\<not> verifyDuringCutoverStarted v"
    and "reverifyChan v = Some c" and "\<not> closed c" and "wg v \<noteq> None"
    and "\<forall>e \<in> set pre. \<not> pk_fails v e"
    and "\<not> tableIsIgnored v (TableSchema ev)" and "PK ev = Inl err"
  shows "\<exists>v'. binlogEventListener v (pre @ ev # post) = (Returns (Some err), v')
     \<and> emitted v' = emitted v @ entries_of_events v pre"
proof -
  let ?v = "v\<lparr>reverifyChan := Some (c\<lparr>sent := sent c @ entries_of_events v pre\<rparr>)\<rparr>"
  have "binlogEventListener v (pre @ ev # post) = range_evs ?v (ev # post)"
    using assms(1) range_evs_prefix[OF assms(2,3,4,5)] by (simp add: binlogEventListener_def)
  also have "\<dots> = (Returns (Some err), ?v)"
    using assms(6,7) by simp
  finally show ?thesis
    using assms(2) by (simp add: emitted_def)
qed

theorem listener_pk_failure_not_atomic_witness:
  "\<not> verifyDuringCutoverStarted verifier_ready
   \<and> reverifyChan verifier_ready = Some \<lparr>closed = False, sent = []\<rparr>
   \<and> wg verifier_ready \<noteq> None
   \<and> list_all (\<lambda>e. \<not> pk_fails verifier_ready e) events_before
   \<and> \<not> tableIsIgnored verifier_ready (TableSchema event_without_pk)
   \<and> PK event_without_pk = Inl (Error ''no pk'')
   \<and> (\<exists>v'. binlogEventListener verifier_ready (events_before @ event_without_pk # events_after)
              = (Returns (Some (Error ''no pk'')), v')
         \<and> emitted v' = [\<lparr>Pk = 5, Table_entry = table_t1\<rparr>])"
proof -
  have 1: "\<not> verifyDuringCutoverStarted verifier_ready"
    by (simp add: verifier_defs)
  have 2: "reverifyChan verifier_ready = Some \<lparr>closed = False, sent = []\<rparr>"
    by (simp add: verifier_defs)
  have 3: "\<not> closed \<lparr>closed = False, sent = []\<rparr>"
    by simp
  have 4: "wg verifier_ready \<noteq> None"
    by (simp add: verifier_defs)
  have 5: "\<forall>e \<in> set events_before. \<not> pk_fails verifier_ready e"
    by (simp add: events_before_def pk_fails_def)
  have 6: "\<not> tableIsIgnored verifier_ready (TableSchema event_without_pk)"
    by (simp add: verifier_defs event_without_pk_def tableIsIgnored_def)
  have 7: "PK event_without_pk = Inl (Error ''no pk'')"
    by (simp add: event_without_pk_def)
  have sent: "emitted verifier_ready @ entries_of_events verifier_ready events_before
      = [\<lparr>Pk = 5, Table_entry = table_t1\<rparr>]"
    by (simp add: verifier_defs events_before_def emitted_def tableIsIgnored_def entry_of_event_def)
  from listener_pk_failure_not_atomic[OF 1 2 3 4 5 6 7, of events_after]
  show ?thesis
    using 1 2 4 5 6 7 unfolding sent list_all_iff by blast
qed

subsection \<open>The controller\<close>

lemma upt2: "[0..<2] = [0, 1]"
  by (simp add: upt_conv_Cons)

lemma Initialize_verifier0:
  "Initialize (heap0, verifier0) = (None, heap_ready, verifier_initialized)"
  by (simp add: Initialize_def SanityCheckParameters_def verifier_defs
      NewReverifyStore_def make_map_def fun_upd_def)

lemma VerifyBeforeCutover_clean:
  "VerifyBeforeCutover round_robin clean_scan verifier_initialized = (Returns None, verifier_ready)"
  by (simp add: VerifyBeforeCutover_def verifier_defs pool_Run_def process_table_def
      clean_scan_def upt2)

lemma range_results_all_nil:
  "\<forall>i \<in> set is. i < n \<Longrightarrow> range_results (replicate n None) is st = Inr st"
  by (induction "is") auto

lemma VerifyDuringCutover_no_batches:
  assumes "reverifyChan v = Some c" and "\<not> closed c" and "sent c = []" and "wg v = Some k"
    and "reverifyStore v = Some r" and "MapStore r = Some a" and "maps h a = []"
    and "CursorConfig v = Some cc" and "logger v = Some ()" and "1 \<le> Concurrency v"
  shows "fst (VerifyDuringCutover sched GetHashes (h, v))
           = Returns (\<lparr>DataCorrect = False, Message = []\<rparr>, None)"
proof -
  have res: "range_results (replicate (nat (Concurrency v)) None) [0..<nat (Concurrency v)]
      (\<lparr>DataCorrect = False, Message = []\<rparr>, None) = Inr (\<lparr>DataCorrect = False, Message = []\<rparr>, None)"
    by (rule range_results_all_nil) simp
  show ?thesis
    using assms res
    by (simp add: VerifyDuringCutover_def FreezeAndBatchByTable_def pool_Run_def)
qed

text \<open>What the loop over the results does when a slot is filled: it returns the first
  failed or errored slot, and with no such slot and some filled slot a successful result.\<close>

lemma range_results_first_failed:
  assumes "\<forall>j \<in> set pre. j < length results \<and>
             (case results ! j of None \<Rightarrow> True | Some r \<Rightarrow> \<not> ErroredOrFailed r)"
    and "i < length results" and "results ! i = Some rae" and "ErroredOrFailed rae"
  shows "range_results results (pre @ i # post) st = Inr (Result rae, Error_of rae)"
  using assms
proof (induction pre arbitrary: st)
  case Nil
  then show ?case by simp
next
  case (Cons j pre)
  then show ?case by (cases "results ! j") auto
qed

lemma range_results_none_failed:
  assumes "\<forall>j \<in> set is. j < length results \<and>
             (case results ! j of None \<Rightarrow> True | Some r \<Rightarrow> \<not> ErroredOrFailed r)"
    and "DataCorrect (fst st) \<and> snd st = None \<or> (\<exists>j \<in> set is. results ! j \<noteq> None)"
  shows "\<exists>result. range_results results is st = Inr (result, None) \<and> DataCorrect result"
  using assms
proof (induction "is" arbitrary: st)
  case Nil
  then show ?case by (cases st) auto
next
  case (Cons j "is")
  show ?case
  proof (cases "results ! j")
    case None
    with Cons.prems have "DataCorrect (fst st) \<and> snd st = None \<or> (\<exists>j \<in> set is. results ! j \<noteq> None)"
      by auto
    with Cons.IH[of st] Cons.prems(1) None show ?thesis by auto
  next
    case (Some r)
    with Cons.prems(1) have ok: "\<not> ErroredOrFailed r" by auto
    then have "DataCorrect (fst (Result r, Error_of r)) \<and> snd (Result r, Error_of r) = None"
      by (simp add: ErroredOrFailed_def)
    with Cons.IH[of "(Result r, Error_of r)"] Cons.prems(1) Some ok show ?thesis by auto
  qed
qed

text \<open>
  C1. The claim: with no failed or errored batch \<open>VerifyDuringCutover\<close> returns
  \<open>{data_correct = true, message = ""}\<close> and a nil error, in particular when the store is
  empty at the freeze. The code: with zero batches every slot of the pool's results is
  nil, the loop skips them all, and the zero value of \<open>result\<close> is returned, whose
  \<open>DataCorrect\<close> is false. Here the verifier is initialized, the scan before cutover found
  no mismatch and no event came, and the databases agree.
\<close>

theorem VerifyDuringCutover_empty_store:
  "(case Initialize (heap0, verifier0) of
      (_, h, v) \<Rightarrow>
        (case VerifyBeforeCutover round_robin clean_scan v of
           (_, v) \<Rightarrow> VerifyDuringCutover round_robin equal_databases (h, v)))
   = (Returns (\<lparr>DataCorrect = False, Message = []\<rparr>, None), heap_ready, verifier_cutover)"
proof -
  have "(case Initialize (heap0, verifier0) of
      (_, h, v) \<Rightarrow>
        (case VerifyBeforeCutover round_robin clean_scan v of
           (_, v) \<Rightarrow> VerifyDuringCutover round_robin equal_databases (h, v)))
    = VerifyDuringCutover round_robin equal_databases (heap_ready, verifier_ready)"
    by (simp add: Initialize_verifier0 VerifyBeforeCutover_clean)
  also have "\<dots> = (Returns (\<lparr>DataCorrect = False, Message = []\<rparr>, None), heap_ready, verifier_cutover)"
    by (simp add: VerifyDuringCutover_def verifier_defs FreezeAndBatchByTable_def pool_Run_def upt2)
  finally show ?thesis .
qed

text \<open>
  C7. The claim fails for \<open>VerifyDuringCutover\<close> and \<open>VerifyBeforeCutover\<close>, which make no
  check at entry: on a verifier that was never initialized the first closes the nil
  channel and the second calls the nil logger, and both panic; on an initialized verifier
  whose \<open>VerifyBeforeCutover\<close> has not run, \<open>VerifyDuringCutover\<close> closes the channel and
  panics on the nil wait group. None of them returns an error.
\<close>

theorem phase_methods_unchecked_counterexample:
  "fst (VerifyDuringCutover round_robin equal_databases (heap0, verifier0)) = Panics CloseOfNilChannel
   \<and> fst (VerifyBeforeCutover round_robin clean_scan verifier0) = Panics NilPointerDereference
   \<and> fst (VerifyDuringCutover round_robin equal_databases (heap_ready, verifier_initialized))
       = Panics NilPointerDereference"
  by (simp add: VerifyDuringCutover_def VerifyBeforeCutover_def verifier_defs)

text \<open>
  C7, amended. \<open>StartInBackground\<close> called out of order returns an error at entry, leaves
  the verifier as it was and does not start the background run: when \<open>Initialize\<close> has
  not been called (the logger is nil), when \<open>VerifyBeforeCutover\<close> has not completed, or
  when cutover has already started.
\<close>

theorem StartInBackground_sequencing:
  assumes "logger v = None \<or> \<not> beforeCutoverVerifyDone v \<or> verifyDuringCutoverStarted v"
  shows "StartInBackground v =
     (Some (if logger v = None then Error ''Initialize() must be called before this''
            else if \<not> beforeCutoverVerifyDone v
              then Error ''VerifyBeforeCutover() must be called before this''
            else Error ''verification during cutover has already been started''),
      v, False)"
  using assms by (auto simp: StartInBackground_def)

theorem StartInBackground_sequencing_witness:
  "logger verifier0 = None
   \<and> StartInBackground verifier0
       = (Some (Error ''Initialize() must be called before this''), verifier0, False)
   \<and> \<not> beforeCutoverVerifyDone verifier_initialized
   \<and> StartInBackground verifier_initialized
       = (Some (Error ''VerifyBeforeCutover() must be called before this''), verifier_initialized, False)
   \<and> verifyDuringCutoverStarted verifier_cutover
   \<and> StartInBackground verifier_cutover
       = (Some (Error ''verification during cutover has already been started''), verifier_cutover, False)"
proof -
  have 1: "logger verifier0 = None" by (simp add: verifier_defs)
  have 2: "\<not> beforeCutoverVerifyDone verifier_initialized" and l2: "logger verifier_initialized \<noteq> None"
    by (simp_all add: verifier_defs)
  have 3: "verifyDuringCutoverStarted verifier_cutover" and l3: "logger verifier_cutover \<noteq> None"
    and d3: "beforeCutoverVerifyDone verifier_cutover"
    by (simp_all add: verifier_defs)
  have a: "logger verifier0 = None \<or> \<not> beforeCutoverVerifyDone verifier0 \<or> verifyDuringCutoverStarted verifier0"
    using 1 by simp
  have b: "logger verifier_initialized = None \<or> \<not> beforeCutoverVerifyDone verifier_initialized
      \<or> verifyDuringCutoverStarted verifier_initialized"
    using 2 by simp
  have c: "logger verifier_cutover = None \<or> \<not> beforeCutoverVerifyDone verifier_cutover
      \<or> verifyDuringCutoverStarted verifier_cutover"
    using 3 by simp
  show ?thesis
    using 1 2 l2 3 l3 d3 StartInBackground_sequencing[OF a] StartInBackground_sequencing[OF b]
      StartInBackground_sequencing[OF c]
    by simp
qed

subsection \<open>The fingerprint query\<close>

lemma range_columns_map:
  "idx + length columns \<le> length hashStrs \<Longrightarrow>
   range_columns columns idx hashStrs =
     take idx hashStrs @ map (\<lambda>c. ''MD5(COALESCE('' @ normalizeAndQuoteColumn c @ '', 'NULL'))'') columns
       @ drop (idx + length columns) hashStrs"
proof (induction columns arbitrary: idx hashStrs)
  case Nil
  then show ?case by simp
next
  case (Cons c columns)
  let ?x = "''MD5(COALESCE('' @ normalizeAndQuoteColumn c @ '', 'NULL'))''"
  from Cons.prems have len: "Suc idx + length columns \<le> length (hashStrs[idx := ?x])"
    and i: "idx < length hashStrs"
    by simp_all
  have "take (Suc idx) (hashStrs[idx := ?x]) = take idx hashStrs @ [?x]"
    using i by (simp add: take_Suc_conv_app_nth)
  then show ?case
    using Cons.IH[OF len] by simp
qed

lemma normalizeAndQuoteColumn_reference: "normalizeAndQuoteColumn c = column_reference c"
  by (simp add: normalizeAndQuoteColumn_def column_reference_def quoteField_def)

text \<open>
  C5. For columns \<open>c1..cn\<close> and a non-empty pk list, \<open>GetMd5HashesSql\<close> returns the
  statement that selects the quoted pk column and
  \<open>MD5(CONCAT(MD5(COALESCE(c1, 'NULL')),..,MD5(COALESCE(cn, 'NULL')))) AS row_fingerprint\<close>
  from the quoted table, filters by the pk column \<open>IN\<close> one placeholder per pk, orders by
  the pk column, and has the pks as its arguments; a float column stands in it as the IF
  expression that maps the text \<open>-0\<close> to 0 (\<open>column_reference\<close>).
\<close>

theorem GetMd5HashesSql_shape:
  assumes "pks \<noteq> []"
  shows "GetMd5HashesSql schema table pkColumn columns pks =
     Inr (''SELECT `'' @ pkColumn @ ''`, MD5(CONCAT(''
            @ strings_Join (map (\<lambda>c. ''MD5(COALESCE('' @ column_reference c @ '', 'NULL'))'') columns) '',''
            @ '')) AS row_fingerprint''
          @ '' FROM `'' @ schema @ ''`.`'' @ table @ ''`''
          @ '' WHERE `'' @ pkColumn @ ''` IN ('' @ strings_Join (map (\<lambda>pk. ''?'') pks) '','' @ '')''
          @ '' ORDER BY `'' @ pkColumn @ ''`'',
          pks)"
proof -
  have "range_columns columns 0 (replicate (length columns) []) =
      map (\<lambda>c. ''MD5(COALESCE('' @ column_reference c @ '', 'NULL'))'') columns"
    by (simp add: range_columns_map normalizeAndQuoteColumn_reference)
  then show ?thesis
    by (simp add: GetMd5HashesSql_def rowMd5Selector_def sq_ToSql_def sq_OrderBy_def sq_Where_Eq_def
        sq_From_def sq_Select_def sq_Eq_sql_def sq_Placeholders_def quoteField_def
        QuotedTableNameFromString_def map_replicate_const)
qed

theorem GetMd5HashesSql_shape_witness:
  "[3, 5, 8 :: uint64] \<noteq> []
   \<and> GetMd5HashesSql ''db'' ''t1'' ''id'' columns2 [3, 5, 8] =
       Inr (''SELECT `id`, MD5(CONCAT(MD5(COALESCE(`id`, 'NULL')),MD5(COALESCE((if (`price` = '-0', 0, `price`)), 'NULL')))) AS row_fingerprint FROM `db`.`t1` WHERE `id` IN (?,?,?) ORDER BY `id`'',
            [3, 5, 8])"
proof -
  have n: "[3, 5, 8 :: uint64] \<noteq> []" by simp
  show ?thesis
    using GetMd5HashesSql_shape[OF n, of "''db''" "''t1''" "''id''" columns2]
    by (simp add: columns2_def column_reference_def TYPE_FLOAT_def)
qed

end
